theory Spec2Isabelle
  imports Complex_Main "HOL-Library.AList" "HOL-Library.Multiset"
begin

section \<open>Python values\<close>

text \<open>
  Both modules work on decoded JSON: \<open>users.json\<close> is an object keyed by the
  stringified user id, \<open>trades.json\<close> an array of records, and the exchange
  answers with JSON envelopes. A decoded value is one of Python's \<open>None\<close>,
  \<open>bool\<close>, \<open>int\<close>, \<open>float\<close>, \<open>str\<close>, \<open>list\<close> and \<open>dict\<close>. A
  \<open>dict\<close> is an association list in insertion order (its keys are distinct in
  every decoded document); lookups take the first binding of a key. Floats are
  modelled by the real number they denote: rounding, \<open>nan\<close> and \<open>inf\<close> are not part of
  this type.
\<close>

datatype pyval =
    PNone
  | PBool bool
  | PInt int
  | PFloat real
  | PStr string
  | PList "pyval list"
  | PDict "(string \<times> pyval) list"

type_synonym dict = "(string \<times> pyval) list"

text \<open>The exceptions the modelled code can raise.\<close>

datatype error = AttributeError | TypeError | KeyError | ValueError | ZeroDivisionError | ClientError

text \<open>Truthiness, as \<open>if x\<close>, \<open>not x\<close> and \<open>x or y\<close> use it.\<close>

fun truthy :: "pyval \<Rightarrow> bool" where
  "truthy PNone = False"
| "truthy (PBool b) = b"
| "truthy (PInt i) = (i \<noteq> 0)"
| "truthy (PFloat r) = (r \<noteq> 0)"
| "truthy (PStr s) = (s \<noteq> [])"
| "truthy (PList xs) = (xs \<noteq> [])"
| "truthy (PDict d) = (d \<noteq> [])"

definition py_or :: "pyval \<Rightarrow> pyval \<Rightarrow> pyval" where
  "py_or a b = (if truthy a then a else b)"

text \<open>\<open>d.get(k, default)\<close>, \<open>k in d\<close>, \<open>d[k] = v\<close> (\<open>AList.update\<close>: an existing
  key keeps its place, a new key goes last) and \<open>d.setdefault(k, v)\<close>.\<close>

definition dget :: "dict \<Rightarrow> string \<Rightarrow> pyval \<Rightarrow> pyval" where
  "dget d k dflt = (case map_of d k of Some v \<Rightarrow> v | None \<Rightarrow> dflt)"

definition has_key :: "dict \<Rightarrow> string \<Rightarrow> bool" where
  "has_key d k = (map_of d k \<noteq> None)"

definition setdefault :: "string \<Rightarrow> pyval \<Rightarrow> dict \<Rightarrow> dict" where
  "setdefault k v d = (if has_key d k then d else AList.update k v d)"

fun is_dict :: "pyval \<Rightarrow> bool" where
  "is_dict (PDict d) = True"
| "is_dict v = False"

text \<open>
  \<open>str(x)\<close>. The decimal text of an \<open>int\<close>, the text of \<open>None\<close> and of a
  \<open>bool\<close>, and a \<open>str\<close> itself are computed. The text of a float, a list or a
  dict depends on Python's float formatting and string quoting, which are not
  modelled: it is the parameter \<open>repr\<close>, and every theorem holds for every
  \<open>repr\<close>.
\<close>

definition digit :: "nat \<Rightarrow> char" where
  "digit n = ''0123456789'' ! n"

function str_nat :: "nat \<Rightarrow> string" where
  "str_nat n = (if n < 10 then [digit n] else str_nat (n div 10) @ [digit (n mod 10)])"
  by pat_completeness auto
termination
  by (relation "measure id") auto

declare str_nat.simps [simp del]

definition str_int :: "int \<Rightarrow> string" where
  "str_int i = (if i < 0 then CHR ''-'' # str_nat (nat (- i)) else str_nat (nat i))"

fun py_str :: "(pyval \<Rightarrow> string) \<Rightarrow> pyval \<Rightarrow> string" where
  "py_str repr PNone = ''None''"
| "py_str repr (PBool b) = (if b then ''True'' else ''False'')"
| "py_str repr (PInt i) = str_int i"
| "py_str repr (PStr s) = s"
| "py_str repr v = repr v"

text \<open>The instance of \<open>repr\<close> used where a concrete input is evaluated; no such input
  holds a float, list or dict where \<open>str\<close> is applied.\<close>

definition repr0 :: "pyval \<Rightarrow> string" where
  "repr0 v = ''?''"


section \<open>db\_json.py: the profile store and the trade ledger\<close>

subsection \<open>Profile normalization\<close>

text \<open>The table of default settings of \<open>_ensure_user_defaults\<close>, in its order.\<close>

definition defaults :: dict where
  "defaults =
    [(''USE_RSI'', PBool True), (''RSI_PERIOD'', PInt 14), (''RSI_OVERSOLD'', PInt 40),
     (''RSI_OVERBOUGHT'', PInt 60),
     (''USE_EMA'', PBool True), (''FAST_MA'', PInt 50), (''SLOW_MA'', PInt 200),
     (''USE_MACD'', PBool True), (''MACD_FAST'', PInt 8), (''MACD_SLOW'', PInt 21),
     (''MACD_SIGNAL'', PInt 5),
     (''USE_OI'', PBool False), (''OI_WINDOW'', PInt 3), (''OI_MIN_CHANGE_PCT'', PFloat 5),
     (''OI_DIRECTION'', PStr ''up''),
     (''BUY_CONFIRMATION_RATIO'', PFloat (66 / 100)),
     (''SELL_CONFIRMATION_RATIO'', PFloat (33 / 100)),
     (''ORDER_PERCENT'', PFloat 10), (''ORDER_SIZE_USD'', PFloat 0),
     (''TP_PCT'', PFloat 1), (''SL_PCT'', PFloat (1 / 2)),
     (''QTY_PRECISION'', PInt 6),
     (''MIN_NOTIONAL'', PFloat 5),
     (''SYMBOLS'', PList [PStr ''BTCUSDT'']),
     (''TESTNET'', PBool True),
     (''DRY_RUN'', PBool True),
     (''DISABLED_AUTH'', PBool False)]"

text \<open>\<open>for k, v in defaults.items(): u['settings'].setdefault(k, v)\<close>\<close>

definition fill_defaults :: "dict \<Rightarrow> dict" where
  "fill_defaults s = fold (\<lambda>(k, v) acc. setdefault k v acc) defaults s"

text \<open>
  The body of \<open>_ensure_user_defaults\<close> on the profile \<open>u = users[uid]\<close>, statement by
  statement. A \<open>settings\<close> value that is present but not a dict is replaced by the
  empty dict before the defaults are filled in.
\<close>

definition normalize_profile :: "string \<Rightarrow> pyval \<Rightarrow> dict \<Rightarrow> dict" where
  "normalize_profile uid username u =
    (let u1 = setdefault ''username'' (py_or username (PStr (''user_'' @ uid))) u;
         u2 = setdefault ''api_key'' (PStr []) u1;
         u3 = setdefault ''api_secret'' (PStr []) u2;
         u4 = setdefault ''sub_until'' PNone u3;
         u5 = (if \<not> has_key u4 ''settings'' \<or> \<not> is_dict (dget u4 ''settings'' PNone)
               then AList.update ''settings'' (PDict []) u4 else u4);
         u6 = (case dget u5 ''settings'' PNone of
                 PDict s \<Rightarrow> AList.update ''settings'' (PDict (fill_defaults s)) u5
               | _ \<Rightarrow> u5)
     in setdefault ''_positions'' (PDict []) u6)"

text \<open>
  \<open>_ensure_user_defaults(users, uid, username=None)\<close>. The profile is created empty
  when the key is new; a stored profile that is not a dict has no \<open>setdefault\<close>, so
  the call raises \<open>AttributeError\<close>.
\<close>

definition ensure_user_defaults ::
  "(pyval \<Rightarrow> string) \<Rightarrow> dict \<Rightarrow> pyval \<Rightarrow> pyval \<Rightarrow> error + dict" where
  "ensure_user_defaults repr users uid0 username =
    (let uid = py_str repr uid0;
         users1 = (if \<not> has_key users uid then AList.update uid (PDict []) users else users)
     in case dget users1 uid PNone of
          PDict u \<Rightarrow> Inr (AList.update uid (PDict (normalize_profile uid username u)) users1)
        | _ \<Rightarrow> Inl AttributeError)"

subsection \<open>The trade ledger\<close>

text \<open>
  The ledger is what \<open>_read(path, [])\<close> returns: the list stored in \<open>trades.json\<close>,
  or the empty list when the file is missing or unreadable. \<open>append_trade\<close> reads
  it, appends and writes it back.
\<close>

definition append_trade :: "pyval \<Rightarrow> pyval list \<Rightarrow> pyval list" where
  "append_trade trade trades = trades @ [trade]"

text \<open>
  \<open>[t for t in trades if str(t.get('user_id')) == uid]\<close>: a record that is not a
  dict has no \<open>get\<close>, and the comprehension raises \<open>AttributeError\<close>.
\<close>

fun user_trades :: "(pyval \<Rightarrow> string) \<Rightarrow> string \<Rightarrow> pyval list \<Rightarrow> error + pyval list" where
  "user_trades repr uid [] = Inr []"
| "user_trades repr uid (t # ts) =
    (case t of
       PDict d \<Rightarrow>
         (case user_trades repr uid ts of
            Inl e \<Rightarrow> Inl e
          | Inr r \<Rightarrow> Inr (if py_str repr (dget d ''user_id'' PNone) = uid then t # r else r))
     | _ \<Rightarrow> Inl AttributeError)"

text \<open>The slice \<open>xs[i:]\<close>: a negative \<open>i\<close> counts from the end, and both ends clamp.\<close>

definition slice_from :: "'a list \<Rightarrow> int \<Rightarrow> 'a list" where
  "slice_from xs i = (if i < 0 then drop (nat (int (length xs) + i)) xs else drop (nat i) xs)"

text \<open>\<open>get_trades_for_user(uid, limit=100)\<close>: \<open>user_trades[-limit:]\<close>.\<close>

definition get_trades_for_user ::
  "(pyval \<Rightarrow> string) \<Rightarrow> pyval \<Rightarrow> int \<Rightarrow> pyval list \<Rightarrow> error + pyval list" where
  "get_trades_for_user repr uid limit trades =
    (case user_trades repr (py_str repr uid) trades of
       Inl e \<Rightarrow> Inl e
     | Inr ut \<Rightarrow> Inr (slice_from ut (- limit)))"

subsection \<open>Vocabulary of the statements\<close>

text \<open>
  The top-level defaults of \<open>_ensure_user_defaults\<close> (the \<open>setdefault\<close> calls on
  \<open>u\<close>), the settings a profile held before normalization (none when \<open>settings\<close>
  is absent or not a dict), the profile stored under a key, and the test of the
  ledger's list comprehension.
\<close>

definition top_defaults :: "string \<Rightarrow> pyval \<Rightarrow> dict" where
  "top_defaults uid username =
    [(''username'', py_or username (PStr (''user_'' @ uid))), (''api_key'', PStr []),
     (''api_secret'', PStr []), (''sub_until'', PNone), (''_positions'', PDict [])]"

definition old_settings :: "dict \<Rightarrow> dict" where
  "old_settings u = (case map_of u ''settings'' of Some (PDict s) \<Rightarrow> s | _ \<Rightarrow> [])"

definition stored_profile :: "dict \<Rightarrow> string \<Rightarrow> dict" where
  "stored_profile users k = (case map_of users k of Some (PDict u) \<Rightarrow> u | _ \<Rightarrow> [])"

definition owned_by :: "(pyval \<Rightarrow> string) \<Rightarrow> string \<Rightarrow> pyval \<Rightarrow> bool" where
  "owned_by repr uid t = (case t of PDict d \<Rightarrow> py_str repr (dget d ''user_id'' PNone) = uid | _ \<Rightarrow> False)"


subsection \<open>Concrete profiles\<close>

text \<open>
  A users mapping whose only profile holds nothing but \<open>settings = {RSI_PERIOD: 21}\<close>,
  and what \<open>_ensure_user_defaults\<close> makes of it.
\<close>

definition users_rsi21 :: dict where
  "users_rsi21 = [(''1'', PDict [(''settings'', PDict [(''RSI_PERIOD'', PInt 21)])])]"

definition settings_rsi21 :: dict where
  "settings_rsi21 =
    [(''RSI_PERIOD'', PInt 21), (''USE_RSI'', PBool True), (''RSI_OVERSOLD'', PInt 40),
     (''RSI_OVERBOUGHT'', PInt 60),
     (''USE_EMA'', PBool True), (''FAST_MA'', PInt 50), (''SLOW_MA'', PInt 200),
     (''USE_MACD'', PBool True), (''MACD_FAST'', PInt 8), (''MACD_SLOW'', PInt 21),
     (''MACD_SIGNAL'', PInt 5),
     (''USE_OI'', PBool False), (''OI_WINDOW'', PInt 3), (''OI_MIN_CHANGE_PCT'', PFloat 5),
     (''OI_DIRECTION'', PStr ''up''),
     (''BUY_CONFIRMATION_RATIO'', PFloat (66 / 100)),
     (''SELL_CONFIRMATION_RATIO'', PFloat (33 / 100)),
     (''ORDER_PERCENT'', PFloat 10), (''ORDER_SIZE_USD'', PFloat 0),
     (''TP_PCT'', PFloat 1), (''SL_PCT'', PFloat (1 / 2)),
     (''QTY_PRECISION'', PInt 6),
     (''MIN_NOTIONAL'', PFloat 5),
     (''SYMBOLS'', PList [PStr ''BTCUSDT'']),
     (''TESTNET'', PBool True),
     (''DRY_RUN'', PBool True),
     (''DISABLED_AUTH'', PBool False)]"

definition users_rsi21_normal :: dict where
  "users_rsi21_normal =
    [(''1'', PDict [(''settings'', PDict settings_rsi21), (''username'', PStr ''user_1''),
       (''api_key'', PStr []), (''api_secret'', PStr []), (''sub_until'', PNone),
       (''_positions'', PDict [])])]"

text \<open>A ledger of three records, two of them of user 7.\<close>

definition ledger3 :: "pyval list" where
  "ledger3 =
    [PDict [(''user_id'', PInt 7), (''n'', PInt 1)],
     PDict [(''user_id'', PInt 8), (''n'', PInt 2)],
     PDict [(''user_id'', PStr ''7''), (''n'', PInt 3)]]"


section \<open>trading\_core.py: the per-cycle pass over the users\<close>

subsection \<open>The environment of a cycle and the persistent state\<close>

text \<open>
  What a cycle of \<open>run_once\<close> takes from outside the program is a parameter:
  \<^item> \<open>env_repr\<close> is \<open>repr\<close> above;
  \<^item> \<open>int_of s\<close> is \<open>int(s)\<close> on a string, \<open>None\<close> when it raises;
  \<^item> \<open>expired s\<close> is \<open>datetime.fromisoformat(s) < datetime.utcnow()\<close> at the time
    of the cycle, \<open>None\<close> when \<open>fromisoformat\<close> raises;
  \<^item> \<open>balance k api_key api_secret testnet\<close> is what \<open>get_balance_usdt()\<close> gives for
    the client that \<open>run_once\<close> builds in this cycle for the user stored under the
    key \<open>k\<close>: \<open>Inr\<close> the returned value (a number or an error envelope), \<open>Inl\<close> an
    exception (the built-in client catches its own; a local \<open>client.py\<close> may raise);
  \<^item> \<open>alt_balance\<close> is the same for the client of the alternate-environment probe.
  A user is visited once in a cycle and gets at most one call of each kind, so
  indexing the answers by the user's key fixes nothing about the exchange.
  Building a client makes no network call and does not fail.
\<close>

record env =
  env_repr :: "pyval \<Rightarrow> string"
  int_of :: "string \<Rightarrow> int option"
  expired :: "string \<Rightarrow> bool option"
  balance :: "string \<Rightarrow> pyval \<Rightarrow> pyval \<Rightarrow> bool \<Rightarrow> error + pyval"
  alt_balance :: "string \<Rightarrow> pyval \<Rightarrow> pyval \<Rightarrow> bool \<Rightarrow> error + pyval"

text \<open>
  The state that outlives a cycle: the decoded content of \<open>users.json\<close> and of
  \<open>trades.json\<close> (\<open>None\<close> when the file does not exist), and the exchange calls
  made so far, each with the key of the user it was made for, whether it was the
  probe, and the \<open>testnet\<close> flag of its client. Writing a file always succeeds.
\<close>

record world =
  users_file :: "pyval option"
  trades_file :: "pyval option"
  calls :: "(string \<times> bool \<times> bool) list"

definition load_users :: "world \<Rightarrow> pyval" where
  "load_users w = (case users_file w of None \<Rightarrow> PDict [] | Some v \<Rightarrow> v)"

definition save_users :: "dict \<Rightarrow> world \<Rightarrow> world" where
  "save_users users w = w\<lparr>users_file := Some (PDict users)\<rparr>"

text \<open>\<open>decode_api_key\<close>: \<open>db_json\<close> has no \<open>decode_key\<close>, so a truthy key is returned
  as it is.\<close>

definition decode_api_key :: "pyval \<Rightarrow> pyval" where
  "decode_api_key maybe_encoded = (if \<not> truthy maybe_encoded then PStr [] else maybe_encoded)"

subsection \<open>Classifying the balance response\<close>

text \<open>\<open>s.lower()\<close> on ASCII letters, and \<open>sub in s\<close>.\<close>

definition lower_char :: "char \<Rightarrow> char" where
  "lower_char c =
    (case map_of (zip ''ABCDEFGHIJKLMNOPQRSTUVWXYZ'' ''abcdefghijklmnopqrstuvwxyz'') c of
       Some l \<Rightarrow> l | None \<Rightarrow> c)"

definition lower :: "string \<Rightarrow> string" where
  "lower s = map lower_char s"

fun contains :: "string \<Rightarrow> string \<Rightarrow> bool" where
  "contains sub [] = (sub = [])"
| "contains sub (c # cs) = (take (length sub) (c # cs) = sub \<or> contains sub cs)"

text \<open>Lines 426 to 431 of \<open>run_once\<close>.\<close>

definition auth_failed :: "(pyval \<Rightarrow> string) \<Rightarrow> pyval \<Rightarrow> bool" where
  "auth_failed repr balance_resp =
    (case balance_resp of
       PDict d \<Rightarrow>
         (let rc = py_str repr (py_or (dget d ''retCode'' (PStr [])) (dget d ''code'' (PStr [])));
              rm = py_str repr (py_or (dget d ''retMsg'' (PStr [])) (dget d ''message'' (PStr [])))
          in rc = ''401'' \<or> contains ''unauthor'' (lower rm) \<or> contains ''invalid api'' (lower rm)
               \<or> contains ''invalid apikey'' (lower rm))
     | _ \<Rightarrow> False)"

text \<open>Numbers: the value of an \<open>int\<close>, \<open>bool\<close> or \<open>float\<close>, and \<open>x + 1\<close>, which raises
  \<open>TypeError\<close> on anything else.\<close>

fun num_of :: "pyval \<Rightarrow> real option" where
  "num_of (PInt i) = Some (real_of_int i)"
| "num_of (PBool b) = Some (if b then 1 else 0)"
| "num_of (PFloat r) = Some r"
| "num_of v = None"

fun add_one :: "pyval \<Rightarrow> error + pyval" where
  "add_one (PInt i) = Inr (PInt (i + 1))"
| "add_one (PBool b) = Inr (PInt ((if b then 1 else 0) + 1))"
| "add_one (PFloat r) = Inr (PFloat (r + 1))"
| "add_one v = Inl TypeError"

definition num_ge :: "pyval \<Rightarrow> real \<Rightarrow> bool" where
  "num_ge v r = (case num_of v of Some x \<Rightarrow> r \<le> x | None \<Rightarrow> False)"

subsection \<open>The alternate-environment probe\<close>

text \<open>
  \<open>try_alternate_env_and_fix_user\<close> (its \<open>client_ctor\<close> argument is unused in the
  source; \<open>k\<close> names the user whose probe it is). The whole body is in a
  \<open>try\<close>: an exception of the probe client, the \<open>KeyError\<close> of a missing
  \<open>users[str(uid)]\<close>, the \<open>AttributeError\<close> of a profile that is not a dict and the
  \<open>TypeError\<close> of a \<open>settings\<close> value that is not a dict all end in \<open>return False\<close>.
\<close>

definition try_alternate_env_and_fix_user ::
  "env \<Rightarrow> string \<Rightarrow> pyval \<Rightarrow> pyval \<Rightarrow> bool \<Rightarrow> int \<Rightarrow> dict \<Rightarrow> world \<Rightarrow> bool \<times> dict \<times> world" where
  "try_alternate_env_and_fix_user e k api_key api_secret current_testnet uid users w =
    (let alt = \<not> current_testnet;
         w1 = w\<lparr>calls := calls w @ [(k, True, alt)]\<rparr>
     in case alt_balance e k api_key api_secret alt of
          Inl err \<Rightarrow> (False, users, w1)
        | Inr bal \<Rightarrow>
            if num_ge bal 0 then
              (case map_of users (str_int uid) of
                 None \<Rightarrow> (False, users, w1)
               | Some (PDict p) \<Rightarrow>
                   (let s = dget p ''settings'' (PDict []);
                        p1 = AList.update ''settings'' s p;
                        users1 = AList.update (str_int uid) (PDict p1) users
                    in case s of
                         PDict sd \<Rightarrow>
                           (let p2 = AList.update ''settings''
                                       (PDict (AList.update ''TESTNET'' (PBool alt) sd)) p1;
                                users2 = AList.update (str_int uid) (PDict p2) users1
                            in (True, users2, save_users users2 w1))
                       | _ \<Rightarrow> (False, users1, w1))
               | Some _ \<Rightarrow> (False, users, w1))
            else (False, users, w1))"

subsection \<open>One iteration of the loop over the users\<close>

text \<open>\<open>if sub_until: ... if fromisoformat(str(sub_until)) < utcnow(): continue\<close>, with
  \<open>except: pass\<close>.\<close>

definition sub_expired :: "env \<Rightarrow> pyval \<Rightarrow> bool" where
  "sub_expired e sub_until =
    (truthy sub_until \<and> expired e (py_str (env_repr e) sub_until) = Some True)"

text \<open>
  The branch \<open>if auth_failed:\<close> (lines 432 to 444). \<open>u\<close> is the object
  \<open>users[k]\<close>, so what the probe changes in \<open>users\<close> is read back before the
  disabling step. \<open>u.setdefault('settings', {})['DISABLED_AUTH'] = True\<close> raises
  \<open>TypeError\<close> when \<open>settings\<close> is present and not a dict.
\<close>

definition on_auth_failure ::
  "env \<Rightarrow> string \<Rightarrow> int \<Rightarrow> pyval \<Rightarrow> pyval \<Rightarrow> bool \<Rightarrow> dict \<Rightarrow> dict \<Rightarrow> world
     \<Rightarrow> error option \<times> dict \<times> world" where
  "on_auth_failure e k uid api_key api_secret testnet u users w =
    (case add_one (dget u ''_auth_failures'' (PInt 0)) of
       Inl err \<Rightarrow> (Some err, users, w)
     | Inr n \<Rightarrow>
         (let users1 = AList.update k (PDict (AList.update ''_auth_failures'' n u)) users;
              w1 = save_users users1 w;
              (users2, w2) =
                (if num_of n = Some 1
                 then snd (try_alternate_env_and_fix_user e k api_key api_secret testnet uid users1 w1)
                 else (users1, w1))
          in if num_ge n 3 then
               (case dget users2 k PNone of
                  PDict u2 \<Rightarrow>
                    (let u3 = setdefault ''settings'' (PDict []) u2
                     in case dget u3 ''settings'' PNone of
                          PDict sd \<Rightarrow>
                            (let users3 = AList.update k
                                   (PDict (AList.update ''settings''
                                      (PDict (AList.update ''DISABLED_AUTH'' (PBool True) sd)) u3))
                                   users2
                             in (None, users3, save_users users3 w2))
                        | _ \<Rightarrow> (Some TypeError, AList.update k (PDict u3) users2, w2))
                | _ \<Rightarrow> (Some AttributeError, users2, w2))
             else (None, users2, w2)))"

text \<open>
  The body of \<open>for uid_str, u in list(users.items())\<close> for the key \<open>k\<close>, in two
  parts. Lines 390 to 411 change nothing: they end in \<open>continue\<close>, in an
  exception (a profile or a truthy \<open>settings\<close> value that is not a dict has no
  \<open>get\<close>: \<open>AttributeError\<close>), or they go on with the user id, the profile, the two
  credentials and the \<open>testnet\<close> flag.
\<close>

datatype gate = Continue | Raise error | Proceed int dict pyval pyval bool

definition precheck :: "env \<Rightarrow> string \<Rightarrow> dict \<Rightarrow> gate" where
  "precheck e k users =
    (case int_of e k of
       None \<Rightarrow> Continue
     | Some uid \<Rightarrow>
         (case dget users k PNone of
            PDict u \<Rightarrow>
              (case py_or (py_or (dget u ''settings'' PNone) (PDict [])) (PDict []) of
                 PDict settings \<Rightarrow>
                   if truthy (dget settings ''DISABLED_AUTH'' (PBool False)) then Continue
                   else if sub_expired e (dget u ''sub_until'' PNone) then Continue
                   else
                     (let api_key = decode_api_key (py_or (dget u ''api_key'' (PStr [])) (PStr []));
                          api_secret = decode_api_key (py_or (dget u ''api_secret'' (PStr [])) (PStr []))
                      in if \<not> truthy api_key \<or> \<not> truthy api_secret then Continue
                         else Proceed uid u api_key api_secret
                                (truthy (dget settings ''TESTNET'' (PBool True))))
               | _ \<Rightarrow> Raise AttributeError)
          | _ \<Rightarrow> Raise AttributeError))"

text \<open>
  Lines 425 to 447: the balance call, its classification, and the two branches.
  The result is the exception that leaves the body, if any, with the in-memory
  \<open>users\<close> and the state at that point.
\<close>

definition check_balance ::
  "env \<Rightarrow> string \<Rightarrow> int \<Rightarrow> dict \<Rightarrow> pyval \<Rightarrow> pyval \<Rightarrow> bool \<Rightarrow> dict \<Rightarrow> world
     \<Rightarrow> error option \<times> dict \<times> world" where
  "check_balance e k uid u api_key api_secret testnet users w =
    (let w1 = w\<lparr>calls := calls w @ [(k, False, testnet)]\<rparr>
     in case balance e k api_key api_secret testnet of
          Inl err \<Rightarrow> (Some err, users, w1)
        | Inr balance_resp \<Rightarrow>
            if auth_failed (env_repr e) balance_resp
            then on_auth_failure e k uid api_key api_secret testnet u users w1
            else
              (let users1 = AList.update k
                     (PDict (AList.update ''_auth_failures'' (PInt 0) u)) users
               in (None, users1, save_users users1 w1)))"

definition process_user :: "env \<Rightarrow> string \<Rightarrow> dict \<Rightarrow> world \<Rightarrow> error option \<times> dict \<times> world" where
  "process_user e k users w =
    (case precheck e k users of
       Continue \<Rightarrow> (None, users, w)
     | Raise err \<Rightarrow> (Some err, users, w)
     | Proceed uid u api_key api_secret testnet \<Rightarrow>
         check_balance e k uid u api_key api_secret testnet users w)"

subsection \<open>The loop and the cycle\<close>

text \<open>The loop has no \<open>try\<close> around its body other than the one around \<open>int(uid_str)\<close>:
  an exception of an iteration leaves the loop.\<close>

fun run_users :: "env \<Rightarrow> string list \<Rightarrow> dict \<Rightarrow> world \<Rightarrow> error option \<times> dict \<times> world" where
  "run_users e [] users w = (None, users, w)"
| "run_users e (k # ks) users w =
    (case process_user e k users w of
       (Some err, users', w') \<Rightarrow> (Some err, users', w')
     | (None, users', w') \<Rightarrow> run_users e ks users' w')"

text \<open>\<open>run_once\<close>: the result is the exception that leaves it, if any, and the state.\<close>

definition run_once :: "env \<Rightarrow> world \<Rightarrow> error option \<times> world" where
  "run_once e w =
    (case load_users w of
       PDict users \<Rightarrow>
         (let w1 = (if trades_file w = None then w\<lparr>trades_file := Some (PList [])\<rparr> else w)
          in case run_users e (map fst users) users w1 of (r, users', w') \<Rightarrow> (r, w'))
     | _ \<Rightarrow> (None, w))"


subsection \<open>Concrete environments and users\<close>

text \<open>
  The instance of \<open>int_of\<close> for concrete inputs: the value of a non-empty string of
  ASCII digits, as \<open>int()\<close> gives it, and \<open>None\<close> on every other string (it is
  applied to digit strings and to strings \<open>int()\<close> rejects only).
\<close>

fun nat_of_digits :: "nat \<Rightarrow> string \<Rightarrow> nat option" where
  "nat_of_digits acc [] = Some acc"
| "nat_of_digits acc (c # cs) =
    (case map_of (zip ''0123456789'' [0, 1, 2, 3, 4, 5, 6, 7, 8, 9]) c of
       None \<Rightarrow> None
     | Some d \<Rightarrow> nat_of_digits (10 * acc + d) cs)"

definition int_of_digits :: "string \<Rightarrow> int option" where
  "int_of_digits s = (if s = [] then None else map_option int (nat_of_digits 0 s))"

text \<open>Answers of the exchange: an authorization error, a balance, a timeout envelope
  as \<open>_private_request\<close> builds it.\<close>

definition unauthorized :: pyval where
  "unauthorized = PDict [(''retCode'', PInt 401), (''retMsg'', PStr ''Unauthorized'')]"

definition timed_out :: pyval where
  "timed_out = PDict [(''retCode'', PInt (- 1)), (''retMsg'', PStr ''Read timed out.'')]"

text \<open>
  Four cycles: the exchange rejects the credentials in both environments; it
  rejects them in the configured environment and accepts them in the other; it
  accepts them; the request times out.
\<close>

definition cycle_rejected :: env where
  "cycle_rejected =
    \<lparr>env_repr = repr0, int_of = int_of_digits, expired = (\<lambda>s. Some False),
     balance = (\<lambda>k key secret testnet. Inr unauthorized),
     alt_balance = (\<lambda>k key secret testnet. Inr unauthorized)\<rparr>"

definition cycle_wrong_env :: env where
  "cycle_wrong_env =
    \<lparr>env_repr = repr0, int_of = int_of_digits, expired = (\<lambda>s. Some False),
     balance = (\<lambda>k key secret testnet. Inr unauthorized),
     alt_balance = (\<lambda>k key secret testnet. Inr (PFloat 25))\<rparr>"

definition cycle_accepted :: env where
  "cycle_accepted =
    \<lparr>env_repr = repr0, int_of = int_of_digits, expired = (\<lambda>s. Some False),
     balance = (\<lambda>k key secret testnet. Inr (PFloat 25)),
     alt_balance = (\<lambda>k key secret testnet. Inr (PFloat 25))\<rparr>"

definition cycle_timeout :: env where
  "cycle_timeout =
    \<lparr>env_repr = repr0, int_of = int_of_digits, expired = (\<lambda>s. Some False),
     balance = (\<lambda>k key secret testnet. Inr timed_out),
     alt_balance = (\<lambda>k key secret testnet. Inr timed_out)\<rparr>"

text \<open>A profile with credentials, no subscription date, \<open>n\<close> recorded failures and the
  given \<open>settings\<close> value; and the state whose \<open>users.json\<close> holds the given users.\<close>

definition profile :: "int \<Rightarrow> pyval \<Rightarrow> pyval" where
  "profile n settings =
    PDict [(''api_key'', PStr ''KEY''), (''api_secret'', PStr ''SECRET''), (''sub_until'', PNone),
           (''settings'', settings), (''_auth_failures'', PInt n)]"

definition on_testnet :: "bool \<Rightarrow> bool \<Rightarrow> pyval" where
  "on_testnet testnet disabled = PDict [(''TESTNET'', PBool testnet), (''DISABLED_AUTH'', PBool disabled)]"

definition stored :: "dict \<Rightarrow> (string \<times> bool \<times> bool) list \<Rightarrow> world" where
  "stored users cs = \<lparr>users_file = Some (PDict users), trades_file = Some (PList []), calls = cs\<rparr>"


subsection \<open>Vocabulary of the statements about a cycle\<close>

text \<open>
  What the probe does to a profile: \<open>settings['TESTNET'] = b\<close>, where an absent
  \<open>settings\<close> is created; a profile or a \<open>settings\<close> value that is not a dict is
  left as it is. And what the iteration of one user may do to the profile under
  another key \<open>k\<close>: nothing, or that (the probe writes to \<open>users[str(uid)]\<close>, which
  is another key when the processed key is not the decimal text of its number).
\<close>

definition set_testnet :: "bool \<Rightarrow> pyval \<Rightarrow> pyval" where
  "set_testnet b p =
    (case p of
       PDict d \<Rightarrow>
         (case dget d ''settings'' (PDict []) of
            PDict sd \<Rightarrow> PDict (AList.update ''settings'' (PDict (AList.update ''TESTNET'' (PBool b) sd)) d)
          | _ \<Rightarrow> p)
     | _ \<Rightarrow> p)"

definition other :: "string \<Rightarrow> dict \<Rightarrow> dict \<Rightarrow> bool" where
  "other k users users' =
    (map_of users' k = map_of users k \<or>
     (\<exists>b p. map_of users k = Some p \<and> map_of users' k = Some (set_testnet b p)))"


text \<open>
  A property \<open>Q\<close> of the profile under the key \<open>k\<close>, in the in-memory \<open>users\<close> and
  in \<open>users.json\<close>; a property that the probe's write does not change; and the
  balance call of the user \<open>k\<close> (not the probe) being among the exchange calls
  made between two states.
\<close>

definition holds :: "(pyval \<Rightarrow> bool) \<Rightarrow> string \<Rightarrow> dict \<Rightarrow> bool" where
  "holds Q k users = (\<exists>p. map_of users k = Some p \<and> Q p)"

definition persisted :: "(pyval \<Rightarrow> bool) \<Rightarrow> string \<Rightarrow> world \<Rightarrow> bool" where
  "persisted Q k w = (\<exists>us. users_file w = Some (PDict us) \<and> holds Q k us)"

definition stable :: "(pyval \<Rightarrow> bool) \<Rightarrow> bool" where
  "stable Q = (\<forall>b p. Q p \<longrightarrow> Q (set_testnet b p))"

definition balance_checked :: "string \<Rightarrow> world \<Rightarrow> world \<Rightarrow> bool" where
  "balance_checked k w w' = (\<exists>tn. (k, False, tn) \<in> set (drop (length (calls w)) (calls w')))"

text \<open>
  The states of the monitor, as properties of a profile: \<open>n\<close> recorded failures and
  not disabled (the counter is read with \<open>u.get('_auth_failures', 0)\<close>, the flag
  with \<open>settings.get('DISABLED_AUTH', False)\<close>); disabled; and the stored counter
  being \<open>n\<close>.
\<close>

definition failures :: "int \<Rightarrow> pyval \<Rightarrow> bool" where
  "failures n p =
    (\<exists>d s. p = PDict d \<and> dget d ''_auth_failures'' (PInt 0) = PInt n \<and>
           map_of d ''settings'' = Some (PDict s) \<and>
           \<not> truthy (dget s ''DISABLED_AUTH'' (PBool False)))"

definition disabled :: "pyval \<Rightarrow> bool" where
  "disabled p =
    (\<exists>d s. p = PDict d \<and> map_of d ''settings'' = Some (PDict s) \<and>
           map_of s ''DISABLED_AUTH'' = Some (PBool True))"

definition counter :: "int \<Rightarrow> pyval \<Rightarrow> bool" where
  "counter n p = (\<exists>d. p = PDict d \<and> map_of d ''_auth_failures'' = Some (PInt n))"

text \<open>What the exchange answers to the balance call of the user \<open>k\<close> in a cycle,
  whatever the credentials and the environment: an authorization failure, or a
  response that is not classified as one.\<close>

definition rejects :: "env \<Rightarrow> string \<Rightarrow> bool" where
  "rejects e k =
    (\<forall>key secret tn. \<exists>resp. balance e k key secret tn = Inr resp \<and> auth_failed (env_repr e) resp)"

definition accepts :: "env \<Rightarrow> string \<Rightarrow> bool" where
  "accepts e k =
    (\<forall>key secret tn. \<exists>resp. balance e k key secret tn = Inr resp \<and> \<not> auth_failed (env_repr e) resp)"


section \<open>Properties of the profile store\<close>

lemma map_of_setdefault: "map_of (setdefault k v d) = [k \<mapsto> v] ++ map_of d"
  by (auto simp: setdefault_def has_key_def AList.update_conv' map_add_def fun_eq_iff split: option.splits)

lemma map_of_fold_setdefault:
  "map_of (fold (\<lambda>(k, v) acc. setdefault k v acc) xs s) = map_of xs ++ map_of s"
proof (induction xs arbitrary: s)
  case Nil
  then show ?case by simp
next
  case (Cons x xs)
  obtain k v where x: "x = (k, v)" by (cases x)
  show ?case
    by (auto simp: x Cons.IH map_of_setdefault map_add_def fun_eq_iff split: option.splits)
qed

lemma fold_setdefault_noop:
  "\<forall>k \<in> fst ` set xs. has_key s k \<Longrightarrow> fold (\<lambda>(k, v) acc. setdefault k v acc) xs s = s"
  by (induction xs arbitrary: s) (auto simp: setdefault_def)

lemma map_of_fill_defaults: "map_of (fill_defaults s) = map_of defaults ++ map_of s"
  by (simp add: fill_defaults_def map_of_fold_setdefault)

lemma has_key_fill_defaults: "k \<in> fst ` set defaults \<Longrightarrow> has_key (fill_defaults s) k"
  by (auto simp: has_key_def map_of_fill_defaults map_add_def weak_map_of_SomeI
      split: option.splits dest!: map_of_eq_None_iff[THEN iffD1])

lemma fill_defaults_idem: "fill_defaults (fill_defaults s) = fill_defaults s"
  unfolding fill_defaults_def[of "fill_defaults s"]
  by (rule fold_setdefault_noop) (simp add: has_key_fill_defaults)

lemma normalize_profile_map:
  "map_of (normalize_profile uid un u) =
     (map_of (top_defaults uid un) ++ map_of u)(''settings'' \<mapsto> PDict (fill_defaults (old_settings u)))"
proof -
  define u4 where "u4 = setdefault ''sub_until'' PNone (setdefault ''api_secret'' (PStr [])
      (setdefault ''api_key'' (PStr []) (setdefault ''username'' (py_or un (PStr (''user_'' @ uid))) u)))"
  define u5 where "u5 = (if \<not> has_key u4 ''settings'' \<or> \<not> is_dict (dget u4 ''settings'' PNone)
               then AList.update ''settings'' (PDict []) u4 else u4)"
  have m4: "map_of u4 = [''sub_until'' \<mapsto> PNone] ++ ([''api_secret'' \<mapsto> PStr []] ++
      ([''api_key'' \<mapsto> PStr []] ++ ([''username'' \<mapsto> py_or un (PStr (''user_'' @ uid))] ++ map_of u)))"
    by (simp add: u4_def map_of_setdefault)
  have s4: "map_of u4 ''settings'' = map_of u ''settings''"
    by (simp add: m4 map_add_def split: option.splits)
  have d5: "dget u5 ''settings'' PNone = PDict (old_settings u)"
  proof (cases "map_of u ''settings''")
    case None
    then show ?thesis
      by (simp add: u5_def has_key_def s4 dget_def AList.update_conv' old_settings_def)
  next
    case (Some v)
    then show ?thesis
      by (cases v) (simp_all add: u5_def has_key_def s4 dget_def AList.update_conv' old_settings_def)
  qed
  have m5: "(map_of u5)(''settings'' \<mapsto> X) = (map_of u4)(''settings'' \<mapsto> X)" for X
    by (simp add: u5_def AList.update_conv')
  have n: "normalize_profile uid un u =
      setdefault ''_positions'' (PDict []) (AList.update ''settings'' (PDict (fill_defaults (old_settings u))) u5)"
    unfolding normalize_profile_def Let_def u4_def[symmetric] u5_def[symmetric] d5 by simp
  have l: "map_of (normalize_profile uid un u) =
      [''_positions'' \<mapsto> PDict []] ++ (map_of u4)(''settings'' \<mapsto> PDict (fill_defaults (old_settings u)))"
    by (simp add: n map_of_setdefault AList.update_conv' m5)
  show ?thesis
    unfolding l m4
    by (rule ext) (simp add: top_defaults_def map_add_def split: option.splits)
qed

lemma normalize_profile_idem:
  "normalize_profile uid un' (normalize_profile uid un u) = normalize_profile uid un u"
proof -
  let ?n = "normalize_profile uid un u"
  have m: "map_of ?n = (map_of (top_defaults uid un) ++ map_of u)(''settings'' \<mapsto> PDict (fill_defaults (old_settings u)))"
    by (rule normalize_profile_map)
  have keys: "has_key ?n ''username''" "has_key ?n ''api_key''" "has_key ?n ''api_secret''"
    "has_key ?n ''sub_until''" "has_key ?n ''settings''" "has_key ?n ''_positions''"
    by (auto simp: has_key_def m top_defaults_def map_add_def split: option.splits)
  have s: "dget ?n ''settings'' PNone = PDict (fill_defaults (old_settings u))"
    by (simp add: dget_def m)
  have ms: "map_of ?n ''settings'' = Some (PDict (fill_defaults (old_settings u)))"
    by (simp add: m)
  show ?thesis
    unfolding normalize_profile_def[of uid un' ?n]
    by (simp add: Let_def setdefault_def keys s fill_defaults_idem AList.update_triv[OF ms])
qed

subsection \<open>Evaluating dictionaries\<close>

text \<open>Structural rules, so that a concrete dictionary is evaluated entry by entry.\<close>

lemma setdefault_Nil: "setdefault k v [] = [(k, v)]"
  by (simp add: setdefault_def has_key_def)

lemma setdefault_Cons:
  "setdefault k v ((a, b) # d) = (if a = k then (a, b) # d else (a, b) # setdefault k v d)"
  by (simp add: setdefault_def has_key_def)

lemma has_key_Nil: "has_key [] k = False"
  by (simp add: has_key_def)

lemma has_key_Cons: "has_key ((a, b) # d) k = (a = k \<or> has_key d k)"
  by (auto simp: has_key_def)

lemma dget_Nil: "dget [] k x = x"
  by (simp add: dget_def)

lemma dget_Cons: "dget ((a, b) # d) k x = (if a = k then b else dget d k x)"
  by (simp add: dget_def)

lemmas dict_eval = setdefault_Nil setdefault_Cons has_key_Nil has_key_Cons dget_Nil dget_Cons



subsection \<open>Normalization\<close>

lemma ensure_user_defaults_result:
  assumes "ensure_user_defaults repr users uid un = Inr users'"
  shows "users' = AList.update (py_str repr uid)
            (PDict (normalize_profile (py_str repr uid) un (stored_profile users (py_str repr uid))))
            (if \<not> has_key users (py_str repr uid) then AList.update (py_str repr uid) (PDict []) users else users)"
    and "map_of users (py_str repr uid) = None \<or> (\<exists>u. map_of users (py_str repr uid) = Some (PDict u))"
  using assms
  by (auto simp: ensure_user_defaults_def Let_def has_key_def dget_def stored_profile_def
      AList.update_conv' split: option.splits pyval.splits if_splits)

text \<open>
  Claim C5, as the code has it. When \<open>_ensure_user_defaults\<close> returns, the profile
  under \<open>str(uid)\<close> maps every key it held before to the value it had, with one
  exception, and every missing key to its default: its keys are those of the old
  profile and of the top-level defaults, the old profile winning (\<open>++\<close> prefers its
  right operand), except that \<open>settings\<close> is always the dict \<open>s'\<close>; and \<open>s'\<close> holds
  the old settings and, for every key they lack, the default. The exception is a
  \<open>settings\<close> value that was present but not a dict: \<open>old_settings\<close> is empty then,
  so the value is replaced by the full table of defaults. No other user changes.
\<close>

theorem normalize_fills_missing_keeps_present:
  assumes "ensure_user_defaults repr users uid un = Inr users'"
  shows "\<exists>u' s'.
      map_of users' (py_str repr uid) = Some (PDict u') \<and>
      map_of u' = (map_of (top_defaults (py_str repr uid) un) ++ map_of (stored_profile users (py_str repr uid)))
                    (''settings'' \<mapsto> PDict s') \<and>
      map_of s' = map_of defaults ++ map_of (old_settings (stored_profile users (py_str repr uid))) \<and>
      (\<forall>j. j \<noteq> py_str repr uid \<longrightarrow> map_of users' j = map_of users j)"
proof -
  let ?k = "py_str repr uid"
  let ?u = "stored_profile users ?k"
  let ?n = "normalize_profile ?k un ?u"
  note r = ensure_user_defaults_result[OF assms]
  have 1: "map_of users' ?k = Some (PDict ?n)"
    by (simp add: r(1) AList.update_conv')
  have 2: "\<forall>j. j \<noteq> ?k \<longrightarrow> map_of users' j = map_of users j"
    by (simp add: r(1) AList.update_conv')
  show ?thesis
    using 1 2 normalize_profile_map[of ?k un ?u] map_of_fill_defaults[of "old_settings ?u"]
    by blast
qed

text \<open>
  Claim C6: normalization is idempotent. Once \<open>_ensure_user_defaults\<close> has returned
  a users mapping, applying it again for the same user, with any username, returns
  that same mapping.
\<close>

theorem normalize_idempotent:
  assumes "ensure_user_defaults repr users uid un = Inr users'"
  shows "ensure_user_defaults repr users' uid un' = Inr users'"
proof -
  let ?k = "py_str repr uid"
  let ?n = "normalize_profile ?k un (stored_profile users ?k)"
  note r = ensure_user_defaults_result[OF assms]
  have 1: "map_of users' ?k = Some (PDict ?n)"
    by (simp add: r(1) AList.update_conv')
  have "ensure_user_defaults repr users' uid un' =
      Inr (AList.update ?k (PDict (normalize_profile ?k un' ?n)) users')"
    by (simp add: ensure_user_defaults_def Let_def has_key_def dget_def 1)
  also have "\<dots> = Inr users'"
    by (simp add: normalize_profile_idem AList.update_triv[OF 1])
  finally show ?thesis .
qed


subsection \<open>Normalization on concrete profiles\<close>

lemma str_int_1: "str_int 1 = ''1''"
  by (simp add: str_int_def str_nat.simps digit_def)

lemma fill_defaults_rsi21: "fill_defaults [(''RSI_PERIOD'', PInt 21)] = settings_rsi21"
  by (simp add: fill_defaults_def defaults_def dict_eval settings_rsi21_def)

lemma ensure_rsi21: "ensure_user_defaults repr0 users_rsi21 (PInt 1) PNone = Inr users_rsi21_normal"
  by (simp add: ensure_user_defaults_def users_rsi21_def users_rsi21_normal_def Let_def
      dict_eval str_int_1 normalize_profile_def py_or_def fill_defaults_rsi21)

text \<open>
  The example of claim C5: a profile with only \<open>settings = {RSI_PERIOD: 21}\<close> ends
  with \<open>RSI_PERIOD = 21\<close> and \<open>USE_RSI = True\<close>.
\<close>

theorem normalize_fills_missing_keeps_present_witness:
  "\<exists>u' s'. map_of users_rsi21_normal ''1'' = Some (PDict u') \<and>
     map_of u' ''settings'' = Some (PDict s') \<and>
     map_of s' ''RSI_PERIOD'' = Some (PInt 21) \<and> map_of s' ''USE_RSI'' = Some (PBool True)"
proof -
  have k: "py_str repr0 (PInt 1) = ''1''"
    by (simp add: str_int_1)
  from normalize_fills_missing_keeps_present[OF ensure_rsi21, unfolded k]
  obtain u' s' where
    a: "map_of users_rsi21_normal ''1'' = Some (PDict u')" and
    b: "map_of u' = (map_of (top_defaults ''1'' PNone) ++
          map_of (stored_profile users_rsi21 ''1''))(''settings'' \<mapsto> PDict s')" and
    c: "map_of s' = map_of defaults ++ map_of (old_settings (stored_profile users_rsi21 ''1''))"
    by blast
  have o: "old_settings (stored_profile users_rsi21 ''1'') = [(''RSI_PERIOD'', PInt 21)]"
    by (simp add: old_settings_def stored_profile_def users_rsi21_def)
  have 1: "map_of s' ''RSI_PERIOD'' = Some (PInt 21)"
    unfolding c o by (simp add: map_add_def)
  have 2: "map_of s' ''USE_RSI'' = Some (PBool True)"
    unfolding c o by (simp add: map_add_def defaults_def)
  have 3: "map_of u' ''settings'' = Some (PDict s')"
    by (simp add: b)
  show ?thesis
    using a 1 2 3 by blast
qed

text \<open>
  Claim C5 as stated fails: a profile whose \<open>settings\<close> key is present with the
  value \<open>None\<close> comes back with that value overwritten by the defaults.
\<close>

theorem normalize_overwrites_non_dict_settings:
  "ensure_user_defaults repr0 [(''1'', PDict [(''settings'', PNone)])] (PInt 1) PNone =
     Inr [(''1'', PDict [(''settings'', PDict defaults), (''username'', PStr ''user_1''),
            (''api_key'', PStr []), (''api_secret'', PStr []), (''sub_until'', PNone),
            (''_positions'', PDict [])])]"
proof -
  have "fill_defaults [] = defaults"
    by (simp add: fill_defaults_def defaults_def dict_eval)
  then show ?thesis
    by (simp add: ensure_user_defaults_def Let_def dict_eval str_int_1
        normalize_profile_def py_or_def)
qed

text \<open>Claim C6 on the same profile.\<close>

theorem normalize_idempotent_witness:
  "ensure_user_defaults repr0 users_rsi21 (PInt 1) PNone = Inr users_rsi21_normal \<and>
   ensure_user_defaults repr0 users_rsi21_normal (PInt 1) (PStr ''bob'') = Inr users_rsi21_normal"
  using normalize_idempotent[OF ensure_rsi21, of "PStr ''bob''"] ensure_rsi21 by simp

section \<open>Properties of the trade ledger\<close>

text \<open>
  The comprehension keeps, in ledger order, the records whose stringified
  \<open>user_id\<close> is the stringified uid; with a positive \<open>limit\<close> the slice keeps the
  last \<open>limit\<close> of them (all of them when there are fewer); and a record appended
  by \<open>append_trade\<close> comes last.
\<close>

lemma user_trades_filter:
  "\<forall>t \<in> set trades. is_dict t \<Longrightarrow> user_trades repr uid trades = Inr (filter (owned_by repr uid) trades)"
proof (induction trades)
  case Nil
  then show ?case by simp
next
  case (Cons t ts)
  then obtain d where "t = PDict d" by (cases t) auto
  with Cons show ?case by (simp add: owned_by_def)
qed

lemma user_trades_not_dict:
  "\<not> (\<forall>t \<in> set trades. is_dict t) \<Longrightarrow> user_trades repr uid trades = Inl AttributeError"
proof (induction trades)
  case Nil
  then show ?case by simp
next
  case (Cons t ts)
  show ?case
  proof (cases t)
    case (PDict d)
    with Cons show ?thesis by simp
  qed simp_all
qed

lemma get_trades_for_user_positive:
  assumes "0 < limit" and "\<forall>t \<in> set trades. is_dict t"
  shows "get_trades_for_user repr uid limit trades =
           Inr (drop (length (filter (owned_by repr (py_str repr uid)) trades) - nat limit)
                  (filter (owned_by repr (py_str repr uid)) trades))"
proof -
  let ?f = "filter (owned_by repr (py_str repr uid)) trades"
  have "nat (int (length ?f) - limit) = length ?f - nat limit"
    using assms(1) by simp
  then show ?thesis
    using assms by (simp add: get_trades_for_user_def user_trades_filter slice_from_def)
qed

lemma user_trades_append_trade:
  "user_trades repr uid trades = Inr r \<Longrightarrow>
   user_trades repr uid (append_trade (PDict d) trades) =
     Inr (if py_str repr (dget d ''user_id'' PNone) = uid then r @ [PDict d] else r)"
  unfolding append_trade_def
proof (induction trades arbitrary: r)
  case Nil
  then show ?case by simp
next
  case (Cons t ts)
  then show ?case by (cases t) (auto split: sum.splits)
qed

lemma str_int_7: "str_int 7 = ''7''" "str_int 8 = ''8''"
  by (simp_all add: str_int_def str_nat.simps digit_def)

text \<open>
  Claim C9 at \<open>limit = 0\<close>: \<open>user_trades[-0:]\<close> is \<open>user_trades[0:]\<close>, the whole
  list, so both records of user 7 come back where the claim promises the last
  zero records, that is none.
\<close>

theorem get_trades_limit_zero_returns_all:
  "get_trades_for_user repr0 (PInt 7) 0 ledger3 =
     Inr [PDict [(''user_id'', PInt 7), (''n'', PInt 1)],
          PDict [(''user_id'', PStr ''7''), (''n'', PInt 3)]]"
  by (simp add: get_trades_for_user_def ledger3_def slice_from_def str_int_7 dget_def)

lemma get_trades_limit_one:
  "get_trades_for_user repr0 (PInt 7) 1 ledger3 = Inr [PDict [(''user_id'', PStr ''7''), (''n'', PInt 3)]]"
  by (simp add: get_trades_for_user_def ledger3_def slice_from_def str_int_7 dget_def)

section \<open>Properties of a cycle\<close>

subsection \<open>What an iteration leaves alone\<close>

lemma dget_PDict_map_of: "dget d k PNone = PDict u \<Longrightarrow> map_of d k = Some (PDict u)"
  by (auto simp: dget_def split: option.splits)

lemma dget_update: "dget (AList.update k v d) j x = (if j = k then v else dget d j x)"
  by (simp add: dget_def AList.update_conv')

lemma other_refl: "other k users users"
  by (simp add: other_def)

lemma other_update: "k \<noteq> j \<Longrightarrow> other k users (AList.update j v users)"
  by (simp add: other_def AList.update_conv')

lemma try_alt_shape:
  assumes "try_alternate_env_and_fix_user e k api_key api_secret tn uid users w = (ok, users', w')"
  shows "calls w' = calls w @ [(k, True, \<not> tn)]"
    and "trades_file w' = trades_file w"
    and "(users' = users \<and> users_file w' = users_file w \<and> \<not> ok) \<or>
         (\<exists>p. map_of users (str_int uid) = Some p \<and>
              users' = AList.update (str_int uid) (set_testnet (\<not> tn) p) users \<and>
              users_file w' = Some (PDict users') \<and> ok \<and>
              (\<exists>bal. alt_balance e k api_key api_secret (\<not> tn) = Inr bal \<and> num_ge bal 0))"
  using assms
  by (auto simp: try_alternate_env_and_fix_user_def Let_def save_users_def set_testnet_def
      dget_def AList.update_triv
      split: sum.splits if_splits option.splits pyval.splits)

lemma other_set_testnet:
  "map_of users1 i = Some p \<Longrightarrow> k \<noteq> j \<Longrightarrow> map_of users1 k = map_of users k \<Longrightarrow>
   other k users (AList.update i (set_testnet b p) users1)"
  by (auto simp: other_def AList.update_conv')

lemma setdefault_present: "map_of d k = Some v \<Longrightarrow> setdefault k x d = d"
  by (simp add: setdefault_def has_key_def)

lemma dget_setdefault_absent: "map_of d k = None \<Longrightarrow> dget (setdefault k x d) k y = x"
  by (simp add: setdefault_def has_key_def dget_def AList.update_conv')

lemma not_dict_case:
  "\<not> is_dict v \<Longrightarrow>
   (case v of PNone \<Rightarrow> g | PBool x \<Rightarrow> g | PInt x \<Rightarrow> g | PFloat x \<Rightarrow> g | PStr x \<Rightarrow> g
      | PList x \<Rightarrow> g | PDict sd \<Rightarrow> f sd) = g"
  by (cases v) auto

lemma set_testnet_dict: "\<exists>d'. set_testnet b (PDict d) = PDict d'"
  by (simp add: set_testnet_def split: pyval.splits)

lemma on_auth_failure_frame:
  assumes r: "on_auth_failure e j uid ak as tn u users w = (r, users', w')"
    and u: "map_of users j = Some (PDict u)"
  shows "trades_file w' = trades_file w \<and>
      (\<exists>cs. calls w' = calls w @ cs \<and> set cs \<subseteq> {(j, True, \<not> tn)}) \<and>
      (users_file w' = users_file w \<or> users_file w' = Some (PDict users')) \<and>
      (k \<noteq> j \<longrightarrow> other k users users')"
proof (cases "add_one (dget u ''_auth_failures'' (PInt 0))")
  case (Inl err)
  with r show ?thesis
    by (auto simp: on_auth_failure_def other_refl)
next
  case (Inr n)
  define users1 where "users1 = AList.update j (PDict (AList.update ''_auth_failures'' n u)) users"
  define w1 where "w1 = save_users users1 w"
  obtain ok us ws where t: "try_alternate_env_and_fix_user e j ak as tn uid users1 w1 = (ok, us, ws)"
    by (metis prod_cases3)
  note sh = try_alt_shape[OF t]
  have w1: "trades_file w1 = trades_file w" "calls w1 = calls w" "users_file w1 = Some (PDict users1)"
    by (simp_all add: w1_def save_users_def)
  have m1: "map_of users1 j = Some (PDict (AList.update ''_auth_failures'' n u))"
    "\<And>i. i \<noteq> j \<Longrightarrow> map_of users1 i = map_of users i"
    by (simp_all add: users1_def AList.update_conv')
  define users2 where "users2 = (if num_of n = Some 1 then us else users1)"
  define w2 where "w2 = (if num_of n = Some 1 then ws else w1)"
  have s2: "(if num_of n = Some 1
               then snd (try_alternate_env_and_fix_user e j ak as tn uid users1 w1)
               else (users1, w1)) = (users2, w2)"
    by (simp add: users2_def w2_def t)
  have f2: "trades_file w2 = trades_file w"
    "\<exists>cs. calls w2 = calls w @ cs \<and> set cs \<subseteq> {(j, True, \<not> tn)}"
    "users_file w2 = Some (PDict users2)"
    using sh w1 by (auto simp: users2_def w2_def)
  have o2: "other k users users2" if kj: "k \<noteq> j"
  proof (cases "num_of n = Some 1")
    case False
    then show ?thesis
      using m1(2)[OF kj] by (simp add: users2_def other_def)
  next
    case True
    from sh(3) show ?thesis
    proof
      assume "us = users1 \<and> users_file ws = users_file w1 \<and> \<not> ok"
      then show ?thesis
        using m1(2)[OF kj] by (simp add: users2_def True other_def)
    next
      assume "\<exists>p. map_of users1 (str_int uid) = Some p \<and>
              us = AList.update (str_int uid) (set_testnet (\<not> tn) p) users1 \<and>
              users_file ws = Some (PDict us) \<and> ok \<and>
              (\<exists>bal. alt_balance e j ak as (\<not> tn) = Inr bal \<and> num_ge bal 0)"
      then obtain p where p: "map_of users1 (str_int uid) = Some p"
        "us = AList.update (str_int uid) (set_testnet (\<not> tn) p) users1"
        by blast
      show ?thesis
      proof (cases "k = str_int uid")
        case eq: True
        have "map_of users k = Some p"
          using p(1) m1(2)[OF kj] eq by simp
        moreover have "map_of users2 k = Some (set_testnet (\<not> tn) p)"
          by (simp add: users2_def True p(2) eq AList.update_conv')
        ultimately show ?thesis
          unfolding other_def by blast
      next
        case False
        then have "map_of users2 k = map_of users k"
          using m1(2)[OF kj] by (simp add: users2_def True p(2) AList.update_conv')
        then show ?thesis
          by (simp add: other_def)
      qed
    qed
  qed
  have d2: "\<exists>u2. map_of users2 j = Some (PDict u2)"
  proof (cases "num_of n = Some 1")
    case False
    then show ?thesis
      using m1(1) by (simp add: users2_def)
  next
    case True
    from sh(3) show ?thesis
    proof
      assume "us = users1 \<and> users_file ws = users_file w1 \<and> \<not> ok"
      then show ?thesis
        using m1(1) by (simp add: users2_def True)
    next
      assume "\<exists>p. map_of users1 (str_int uid) = Some p \<and>
              us = AList.update (str_int uid) (set_testnet (\<not> tn) p) users1 \<and>
              users_file ws = Some (PDict us) \<and> ok \<and>
              (\<exists>bal. alt_balance e j ak as (\<not> tn) = Inr bal \<and> num_ge bal 0)"
      then obtain p where p: "map_of users1 (str_int uid) = Some p"
        "us = AList.update (str_int uid) (set_testnet (\<not> tn) p) users1"
        by blast
      show ?thesis
      proof (cases "j = str_int uid")
        case eq: True
        then have "p = PDict (AList.update ''_auth_failures'' n u)"
          using p(1) m1(1) by simp
        then obtain d' where "set_testnet (\<not> tn) p = PDict d'"
          using set_testnet_dict by blast
        then show ?thesis
          by (simp add: users2_def True p(2) eq AList.update_conv')
      next
        case False
        then show ?thesis
          using m1(1) by (simp add: users2_def True p(2) AList.update_conv')
      qed
    qed
  qed
  have k2: "\<And>v. k \<noteq> j \<Longrightarrow> other k users (AList.update j v users2)"
    using o2 by (auto simp: other_def AList.update_conv')
  from r have r': "(if num_ge n 3 then
               (case dget users2 j PNone of
                  PDict u2 \<Rightarrow>
                    (let u3 = setdefault ''settings'' (PDict []) u2
                     in case dget u3 ''settings'' PNone of
                          PDict sd \<Rightarrow>
                            (let users3 = AList.update j
                                   (PDict (AList.update ''settings''
                                      (PDict (AList.update ''DISABLED_AUTH'' (PBool True) sd)) u3))
                                   users2
                             in (None, users3, save_users users3 w2))
                        | _ \<Rightarrow> (Some TypeError, AList.update j (PDict u3) users2, w2))
                | _ \<Rightarrow> (Some AttributeError, users2, w2))
             else (None, users2, w2)) = (r, users', w')"
    unfolding on_auth_failure_def Inr sum.case Let_def users1_def[symmetric] w1_def[symmetric] s2 prod.case
    by simp
  show ?thesis
  proof (cases "num_ge n 3")
    case False
    with r' f2 o2 show ?thesis by auto
  next
    case True
    from d2 obtain u2 where u2: "map_of users2 j = Some (PDict u2)" by blast
    then have g2: "dget users2 j PNone = PDict u2" by (simp add: dget_def)
    show ?thesis
    proof (cases "is_dict (dget (setdefault ''settings'' (PDict []) u2) ''settings'' PNone)")
      case True
      then obtain sd where "dget (setdefault ''settings'' (PDict []) u2) ''settings'' PNone = PDict sd"
        by (cases "dget (setdefault ''settings'' (PDict []) u2) ''settings'' PNone") auto
      with r' \<open>num_ge n 3\<close> g2 f2 k2 show ?thesis
        by (auto simp: Let_def save_users_def)
    next
      case False
      have "map_of u2 ''settings'' \<noteq> None"
      proof
        assume "map_of u2 ''settings'' = None"
        from dget_setdefault_absent[OF this, of "PDict []" PNone] False show False
          by simp
      qed
      then have "setdefault ''settings'' (PDict []) u2 = u2"
        by (auto simp: setdefault_present)
      with r' \<open>num_ge n 3\<close> g2 f2 o2 False u2 show ?thesis
        by (auto simp: Let_def AList.update_triv not_dict_case)
    qed
  qed
qed

lemma precheck_Proceed:
  assumes "precheck e k users = Proceed uid u ak as tn"
  shows "int_of e k = Some uid" and "map_of users k = Some (PDict u)"
    and "tn = truthy (dget (case py_or (py_or (dget u ''settings'' PNone) (PDict [])) (PDict []) of
                              PDict st \<Rightarrow> st | _ \<Rightarrow> []) ''TESTNET'' (PBool True))"
proof -
  from assms obtain uid' where i: "int_of e k = Some uid'"
    by (cases "int_of e k") (auto simp: precheck_def)
  from assms i obtain u' where d: "dget users k PNone = PDict u'"
    by (cases "dget users k PNone") (auto simp: precheck_def)
  from assms i d obtain st where s: "py_or (py_or (dget u' ''settings'' PNone) (PDict [])) (PDict []) = PDict st"
    by (cases "py_or (py_or (dget u' ''settings'' PNone) (PDict [])) (PDict [])") (auto simp: precheck_def)
  from assms have eq: "uid = uid' \<and> u = u' \<and> tn = truthy (dget st ''TESTNET'' (PBool True))"
    by (simp add: precheck_def i d s Let_def split: if_splits)
  show "int_of e k = Some uid" using i eq by simp
  show "map_of users k = Some (PDict u)" using d eq by (simp add: dget_PDict_map_of)
  show "tn = truthy (dget (case py_or (py_or (dget u ''settings'' PNone) (PDict [])) (PDict []) of
                              PDict st \<Rightarrow> st | _ \<Rightarrow> []) ''TESTNET'' (PBool True))"
    using eq s by simp
qed

lemma check_balance_frame:
  assumes r: "check_balance e j uid u ak as tn users w = (r, users', w')"
    and u: "map_of users j = Some (PDict u)"
  shows "trades_file w' = trades_file w \<and>
      (\<exists>cs. calls w' = calls w @ (j, False, tn) # cs \<and> set cs \<subseteq> {(j, True, \<not> tn)}) \<and>
      (users_file w' = users_file w \<or> users_file w' = Some (PDict users')) \<and>
      (k \<noteq> j \<longrightarrow> other k users users')"
proof (cases "balance e j ak as tn")
  case (Inl err)
  with r show ?thesis
    by (auto simp: check_balance_def Let_def other_refl)
next
  case (Inr resp)
  show ?thesis
  proof (cases "auth_failed (env_repr e) resp")
    case True
    with r Inr have "on_auth_failure e j uid ak as tn u users (w\<lparr>calls := calls w @ [(j, False, tn)]\<rparr>) = (r, users', w')"
      by (simp add: check_balance_def Let_def)
    from on_auth_failure_frame[OF this u, of k] show ?thesis
      by auto
  next
    case False
    with r Inr show ?thesis
      by (auto simp: check_balance_def Let_def save_users_def other_update)
  qed
qed

lemma process_user_frame:
  assumes r: "process_user e j users w = (r, users', w')"
  shows "trades_file w' = trades_file w \<and>
      (\<exists>cs. calls w' = calls w @ cs \<and> fst ` set cs \<subseteq> {j}) \<and>
      (users_file w' = users_file w \<or> users_file w' = Some (PDict users')) \<and>
      (k \<noteq> j \<longrightarrow> other k users users')"
proof (cases "precheck e j users")
  case Continue
  with r show ?thesis by (auto simp: process_user_def other_refl)
next
  case (Raise err)
  with r show ?thesis by (auto simp: process_user_def other_refl)
next
  case (Proceed uid u ak as tn)
  with r have c: "check_balance e j uid u ak as tn users w = (r, users', w')"
    by (simp add: process_user_def)
  from check_balance_frame[OF c precheck_Proceed(2)[OF Proceed], of k]
  obtain cs where f: "trades_file w' = trades_file w"
    "calls w' = calls w @ (j, False, tn) # cs" "set cs \<subseteq> {(j, True, \<not> tn)}"
    "users_file w' = users_file w \<or> users_file w' = Some (PDict users')"
    "k \<noteq> j \<longrightarrow> other k users users'"
    by blast
  from f(3) have "fst ` set ((j, False, tn) # cs) \<subseteq> {j}"
    by auto
  with f show ?thesis
    by blast
qed

lemma holds_other: "stable Q \<Longrightarrow> holds Q k users \<Longrightarrow> other k users users' \<Longrightarrow> holds Q k users'"
  by (auto simp: stable_def holds_def other_def)

lemma process_user_other:
  assumes r: "process_user e j users w = (r, users', w')" and jk: "j \<noteq> k"
    and q: "stable Q" "holds Q k users" "persisted Q k w"
  shows "holds Q k users' \<and> persisted Q k w' \<and> (\<exists>cs. calls w' = calls w @ cs \<and> k \<notin> fst ` set cs)"
proof -
  from process_user_frame[OF r, of k] jk
  have f: "\<exists>cs. calls w' = calls w @ cs \<and> fst ` set cs \<subseteq> {j}"
    "users_file w' = users_file w \<or> users_file w' = Some (PDict users')"
    "other k users users'"
    by auto
  have h: "holds Q k users'"
    using holds_other[OF q(1,2) f(3)] .
  have p: "persisted Q k w'"
    using f(2) q(3) h by (auto simp: persisted_def)
  from f(1) jk have "\<exists>cs. calls w' = calls w @ cs \<and> k \<notin> fst ` set cs"
    by blast
  with h p show ?thesis by simp
qed

lemma run_users_other:
  assumes "k \<notin> set ks" "stable Q"
    and "run_users e ks users w = (r, users', w')" "holds Q k users" "persisted Q k w"
  shows "holds Q k users' \<and> persisted Q k w' \<and> (\<exists>cs. calls w' = calls w @ cs \<and> k \<notin> fst ` set cs)"
  using assms
proof (induction ks arbitrary: users w)
  case Nil
  then show ?case by simp
next
  case (Cons j ks)
  obtain r1 users1 w1 where s: "process_user e j users w = (r1, users1, w1)"
    by (metis prod_cases3)
  from Cons.prems(1) have jk: "j \<noteq> k" "k \<notin> set ks" by auto
  note o = process_user_other[OF s jk(1) Cons.prems(2) Cons.prems(4,5)]
  show ?case
  proof (cases r1)
    case (Some err)
    with Cons.prems(3) s have "(r, users', w') = (Some err, users1, w1)" by simp
    with o show ?thesis by simp
  next
    case None
    with Cons.prems(3) s have "run_users e ks users1 w1 = (r, users', w')" by simp
    from Cons.IH[OF jk(2) Cons.prems(2) this] o
    obtain cs cs' where "holds Q k users'" "persisted Q k w'"
      "calls w' = calls w1 @ cs'" "k \<notin> fst ` set cs'" "calls w1 = calls w @ cs" "k \<notin> fst ` set cs"
      by blast
    then show ?thesis
      by (auto intro!: exI[of _ "cs @ cs'"])
  qed
qed

subsection \<open>A cycle, seen from one user\<close>

lemma set_testnet_PDict:
  "set_testnet b (PDict d) =
     (case dget d ''settings'' (PDict []) of
        PDict sd \<Rightarrow> PDict (AList.update ''settings'' (PDict (AList.update ''TESTNET'' (PBool b) sd)) d)
      | _ \<Rightarrow> PDict d)"
  by (simp add: set_testnet_def)

lemma stable_failures: "stable (failures n)"
  unfolding stable_def failures_def
  by (auto simp: set_testnet_PDict dget_def AList.update_conv')

lemma stable_disabled: "stable disabled"
  unfolding stable_def disabled_def
  by (auto simp: set_testnet_PDict dget_def AList.update_conv')

lemma stable_counter: "stable (counter n)"
  unfolding stable_def counter_def
  by (auto simp: set_testnet_PDict dget_def AList.update_conv' split: pyval.splits)

lemma stable_True: "stable (\<lambda>p. True)"
  by (simp add: stable_def)

lemma run_users_cycle:
  assumes "distinct ks" and st: "stable Q0" "stable Q1"
    and own: "\<And>users1 w1 r2 users2 w2.
        holds Q0 k users1 \<Longrightarrow> persisted Q0 k w1 \<Longrightarrow> process_user e k users1 w1 = (r2, users2, w2) \<Longrightarrow>
        (users2 = users1 \<and> w2 = w1) \<or> (holds Q1 k users2 \<and> persisted Q1 k w2)"
    and "run_users e ks users w = (r, users', w')" and "holds Q0 k users" "persisted Q0 k w"
  shows "(holds Q0 k users' \<and> persisted Q0 k w' \<and> (\<exists>cs. calls w' = calls w @ cs \<and> k \<notin> fst ` set cs))
       \<or> (holds Q1 k users' \<and> persisted Q1 k w')"
  using assms(1,5,6,7)
proof (induction ks arbitrary: users w)
  case Nil
  then show ?case by simp
next
  case (Cons j ks)
  obtain r1 users1 w1 where s: "process_user e j users w = (r1, users1, w1)"
    by (metis prod_cases3)
  from Cons.prems(1) have dj: "j \<notin> set ks" "distinct ks" by auto
  have rest: "r1 = None \<Longrightarrow> run_users e ks users1 w1 = (r, users', w')"
    and stop: "r1 \<noteq> None \<Longrightarrow> (r, users', w') = (r1, users1, w1)"
    using Cons.prems(2) s by auto
  show ?case
  proof (cases "j = k")
    case False
    note o = process_user_other[OF s False st(1) Cons.prems(3,4)]
    show ?thesis
    proof (cases r1)
      case (Some err)
      with stop o show ?thesis by auto
    next
      case None
      from o obtain cs where o': "holds Q0 k users1" "persisted Q0 k w1"
        "calls w1 = calls w @ cs" "k \<notin> fst ` set cs" by blast
      from Cons.IH[OF dj(2) rest[OF None] o'(1,2)] show ?thesis
      proof
        assume "holds Q0 k users' \<and> persisted Q0 k w' \<and> (\<exists>cs. calls w' = calls w1 @ cs \<and> k \<notin> fst ` set cs)"
        then obtain cs' where "holds Q0 k users'" "persisted Q0 k w'"
          "calls w' = calls w1 @ cs'" "k \<notin> fst ` set cs'" by blast
        with o'(3,4) show ?thesis
          by (auto intro!: exI[of _ "cs @ cs'"])
      next
        assume "holds Q1 k users' \<and> persisted Q1 k w'"
        then show ?thesis by simp
      qed
    qed
  next
    case True
    from s True have s': "process_user e k users w = (r1, users1, w1)" by simp
    from dj True have dk: "k \<notin> set ks" by simp
    from own[OF Cons.prems(3,4) s'] show ?thesis
    proof
      assume same: "users1 = users \<and> w1 = w"
      show ?thesis
      proof (cases r1)
        case (Some err)
        with stop same Cons.prems(3,4) show ?thesis by auto
      next
        case None
        from rest[OF None] same have "run_users e ks users w = (r, users', w')" by simp
        from run_users_other[OF dk st(1) this Cons.prems(3,4)] show ?thesis by simp
      qed
    next
      assume q1: "holds Q1 k users1 \<and> persisted Q1 k w1"
      show ?thesis
      proof (cases r1)
        case (Some err)
        with stop q1 show ?thesis by auto
      next
        case None
        from run_users_other[OF dk st(2) rest[OF None]] q1 show ?thesis by simp
      qed
    qed
  qed
qed

lemma run_once_cycle:
  assumes f: "users_file w = Some (PDict users)" and d: "distinct (map fst users)"
    and st: "stable Q0" "stable Q1"
    and own: "\<And>users1 w1 r2 users2 w2.
        holds Q0 k users1 \<Longrightarrow> persisted Q0 k w1 \<Longrightarrow> process_user e k users1 w1 = (r2, users2, w2) \<Longrightarrow>
        (users2 = users1 \<and> w2 = w1) \<or> (holds Q1 k users2 \<and> persisted Q1 k w2)"
    and r: "run_once e w = (r, w')" and p: "persisted Q0 k w" and c: "balance_checked k w w'"
  shows "persisted Q1 k w'"
proof -
  define w1 where "w1 = (if trades_file w = None then w\<lparr>trades_file := Some (PList [])\<rparr> else w)"
  have w1: "users_file w1 = users_file w" "calls w1 = calls w"
    by (simp_all add: w1_def)
  obtain r' users' w'' where ru: "run_users e (map fst users) users w1 = (r', users', w'')"
    by (metis prod_cases3)
  from r f ru have eq: "r = r'" "w' = w''"
    by (simp_all add: run_once_def load_users_def Let_def w1_def[symmetric])
  from p f have h: "holds Q0 k users" "persisted Q0 k w1"
    by (simp_all add: persisted_def w1)
  from run_users_cycle[OF d st own ru h] show ?thesis
  proof
    assume "holds Q0 k users' \<and> persisted Q0 k w'' \<and> (\<exists>cs. calls w'' = calls w1 @ cs \<and> k \<notin> fst ` set cs)"
    then obtain cs where "calls w' = calls w @ cs" "k \<notin> fst ` set cs"
      using eq w1 by auto
    with c have False
      by (force simp: balance_checked_def)
    then show ?thesis ..
  next
    assume "holds Q1 k users' \<and> persisted Q1 k w''"
    with eq show ?thesis by simp
  qed
qed

end
